theory Spec2Isabelle
  imports Main
begin

section \<open>Python values used by the order service\<close>

text \<open>
  The service (\<^verbatim>\<open>BE/app.py\<close> and its copy \<^verbatim>\<open>backup/BE_google_sheet/app.py\<close>)
  reads rows of a spreadsheet as dictionaries, scans them for the previous price of a
  product, and appends a row. A Python \<^verbatim>\<open>str\<close> is modelled as a list of code
  points below 256 (the characters of HOL); \<^verbatim>\<open>str.strip\<close> and
  \<^verbatim>\<open>str.lower\<close> are written out for that range.
\<close>

definition py_isspace :: "char \<Rightarrow> bool" where
  "py_isspace c =
     (let n = (of_char c :: nat)
      in (9 \<le> n \<and> n \<le> 13) \<or> (28 \<le> n \<and> n \<le> 32) \<or> n = 133 \<or> n = 160)"

definition py_strip :: "string \<Rightarrow> string" where
  "py_strip s = rev (dropWhile py_isspace (rev (dropWhile py_isspace s)))"

definition py_lower_char :: "char \<Rightarrow> char" where
  "py_lower_char c =
     (let n = (of_char c :: nat)
      in if (65 \<le> n \<and> n \<le> 90) \<or> (192 \<le> n \<and> n \<le> 214) \<or> (216 \<le> n \<and> n \<le> 222)
         then char_of (n + 32) else c)"

definition py_lower :: "string \<Rightarrow> string" where
  "py_lower s = map py_lower_char s"

text \<open>
  A Python \<^verbatim>\<open>float\<close> is a type parameter \<open>'f\<close>. The operations the service
  applies to floats are the fields of \<open>float_ops\<close>: \<^verbatim>\<open>float(s)\<close> on a string
  (\<open>None\<close> when it raises \<^verbatim>\<open>ValueError\<close>), \<^verbatim>\<open>float(i)\<close> on an integer
  (\<open>None\<close> when it raises \<^verbatim>\<open>OverflowError\<close>), \<^verbatim>\<open>x - y\<close>,
  \<^verbatim>\<open>x == 0\<close> and \<^verbatim>\<open>str(x)\<close>. Every theorem below holds for any such
  operations, so also for IEEE binary64.
\<close>

record 'f float_ops =
  float_of_str :: "string \<Rightarrow> 'f option"
  float_of_int :: "int \<Rightarrow> 'f option"
  fsub :: "'f \<Rightarrow> 'f \<Rightarrow> 'f"
  is_zero :: "'f \<Rightarrow> bool"
  fstr :: "'f \<Rightarrow> string"

text \<open>A cell of a fetched record: gspread returns text, an integer or a float.\<close>

datatype 'f cell = CStr string | CInt int | CFloat 'f

type_synonym 'f row = "string \<rightharpoonup> 'f cell"

text \<open>\<^verbatim>\<open>row.get(key, default)\<close>\<close>

definition row_get :: "'f row \<Rightarrow> string \<Rightarrow> 'f cell \<Rightarrow> 'f cell" where
  "row_get row key dflt = (case row key of None \<Rightarrow> dflt | Some v \<Rightarrow> v)"

text \<open>\<^verbatim>\<open>float(v)\<close>; \<open>None\<close> when it raises.\<close>

fun py_float :: "'f float_ops \<Rightarrow> 'f cell \<Rightarrow> 'f option" where
  "py_float ops (CStr s) = float_of_str ops s"
| "py_float ops (CInt i) = float_of_int ops i"
| "py_float ops (CFloat x) = Some x"

text \<open>
  \<^verbatim>\<open>v.strip().lower()\<close>: only a \<^verbatim>\<open>str\<close> has \<^verbatim>\<open>strip\<close>; on a number
  the call raises \<^verbatim>\<open>AttributeError\<close>. An exception is modelled by its message
  \<^verbatim>\<open>str(e)\<close>, the only part of it the service uses; it is the \<open>Inl\<close> value.
\<close>

definition attribute_error :: "string \<Rightarrow> string \<Rightarrow> string" where
  "attribute_error ty attr =
     [CHR 0x27] @ ty @ [CHR 0x27] @ '' object has no attribute '' @ [CHR 0x27] @ attr @ [CHR 0x27]"

fun strip_lower :: "'f cell \<Rightarrow> string + string" where
  "strip_lower (CStr s) = Inr (py_lower (py_strip s))"
| "strip_lower (CInt i) = Inl (attribute_error ''int'' ''strip'')"
| "strip_lower (CFloat x) = Inl (attribute_error ''float'' ''strip'')"

text \<open>
  \<^verbatim>\<open>int(s)\<close> on a string: surrounding whitespace, an optional sign and decimal
  digits; \<open>None\<close> when it raises \<^verbatim>\<open>ValueError\<close>. (Underscores between digits,
  which \<^verbatim>\<open>int\<close> also accepts, never reach it in this service.)
\<close>

definition is_digit :: "char \<Rightarrow> bool" where
  "is_digit c = (let n = (of_char c :: nat) in 48 \<le> n \<and> n \<le> 57)"

definition digits_val :: "string \<Rightarrow> nat" where
  "digits_val s = foldl (\<lambda>a c. 10 * a + (of_char c - 48)) 0 s"

definition nat_of_digits :: "string \<Rightarrow> nat option" where
  "nat_of_digits t = (if 0 < length t \<and> list_all is_digit t then Some (digits_val t) else None)"

definition int_of_str :: "string \<Rightarrow> int option" where
  "int_of_str s =
     (case py_strip s of
        [] \<Rightarrow> None
      | c # t \<Rightarrow>
          if c = CHR ''-'' then map_option (\<lambda>n. - int n) (nat_of_digits t)
          else if c = CHR ''+'' then map_option int (nat_of_digits t)
          else map_option int (nat_of_digits (c # t)))"

section \<open>Requests and responses\<close>

record 'f order_request =
  product_name :: string
  supplier :: string
  price :: 'f
  quantity :: int
  purchase_date :: string
  staff_in_charge :: string
  approver :: string

text \<open>\<^verbatim>\<open>OrderHistoryItem\<close>: the seven request fields and \<^verbatim>\<open>latest_price_change\<close>.\<close>

record 'f order_history_item = "'f order_request" +
  latest_price_change :: string

text \<open>\<^verbatim>\<open>OrderResponse\<close> of \<^verbatim>\<open>BE/app.py\<close>: message and latest_price_change.\<close>

datatype order_response =
  OrderResponse (resp_message: string) (resp_latest_price_change: string)

text \<open>
  \<^verbatim>\<open>OrderResponse\<close> of \<^verbatim>\<open>backup/BE_google_sheet/app.py\<close>: the message, the
  seven request fields echoed, and latest_price_change.
\<close>

datatype 'f order_response_echo =
  OrderResponseEcho (echo_message: string) (echo_order: "'f order_request")
    (echo_latest_price_change: string)

datatype 'f order_history_response =
  OrderHistoryResponse (resp_orders: "'f order_history_item list")

text \<open>
  What an endpoint returns: \<^verbatim>\<open>JSONResponse(status_code, content={"detail": d})\<close> or
  the response model (status 200).
\<close>

datatype 'a reply = JSONResponse nat string | Success 'a

definition store_error :: "string \<Rightarrow> 'a reply" where
  "store_error e = JSONResponse 500 (''Error accessing Google Sheet: '' @ e)"

section \<open>The row store\<close>

text \<open>
  Modelled from the spec: the remote row store (a Google Sheet reached through gspread) is
  an external collaborator with two calls, \<^verbatim>\<open>fetch_all_rows\<close> returning the sequence
  of field-to-value records and \<^verbatim>\<open>append_row\<close> taking an ordered list of values.
  The worksheet is a header row and the data rows below it; a fetched record pairs the
  header's names with a row's values as the store returns them (as
  \<^verbatim>\<open>dict(zip(keys, row))\<close>, a later duplicate key winning); an append adds one row at the end or fails leaving the sheet
  as it was. Whether a call fails, and with which message, is given by \<open>store_faults\<close>.
\<close>

record 'f worksheet =
  header :: "string list"
  body :: "'f cell list list"

record store_faults =
  open_fault :: "string option"
  read_fault :: "string option"
  append_fault :: "string option"

text \<open>
  \<^verbatim>\<open>get_gsheet\<close>: credentials, authorisation and opening of the sheet; it prints
  and re-raises what goes wrong, and returns the worksheet otherwise.
\<close>

definition get_gsheet :: "store_faults \<Rightarrow> 'f worksheet \<Rightarrow> string + 'f worksheet" where
  "get_gsheet faults ws = (case open_fault faults of Some e \<Rightarrow> Inl e | None \<Rightarrow> Inr ws)"

text \<open>
  Modelled from the spec: \<^verbatim>\<open>fetch_all_rows\<close> (gspread's
  \<^verbatim>\<open>get_all_records\<close>), one record per data row, in the order of the sheet. The
  store may return a text value as a number if it looks numeric: gspread converts a text
  without underscore by \<^verbatim>\<open>int\<close>, else by \<^verbatim>\<open>float\<close>, and leaves it as it is
  when both raise. A number is returned as the number it is.
\<close>

definition numericise :: "'f float_ops \<Rightarrow> string \<Rightarrow> 'f cell" where
  "numericise ops s =
     (if CHR ''_'' \<in> set s then CStr s
      else case int_of_str s of
             Some i \<Rightarrow> CInt i
           | None \<Rightarrow>
               (case float_of_str ops s of
                  Some x \<Rightarrow> CFloat x
                | None \<Rightarrow> CStr s))"

fun read_cell :: "'f float_ops \<Rightarrow> 'f cell \<Rightarrow> 'f cell" where
  "read_cell ops (CStr s) = numericise ops s"
| "read_cell ops (CInt i) = CInt i"
| "read_cell ops (CFloat x) = CFloat x"

definition record_of :: "string list \<Rightarrow> 'f cell list \<Rightarrow> 'f row" where
  "record_of keys vals = map_of (rev (zip keys vals))"

definition fetch_all_rows :: "'f float_ops \<Rightarrow> 'f worksheet \<Rightarrow> 'f row list" where
  "fetch_all_rows ops ws =
     map (\<lambda>vals. record_of (header ws) (map (read_cell ops) vals)) (body ws)"

definition get_all_records ::
  "'f float_ops \<Rightarrow> store_faults \<Rightarrow> 'f worksheet \<Rightarrow> string + 'f row list" where
  "get_all_records ops faults ws =
     (case read_fault faults of
        Some e \<Rightarrow> Inl e
      | None \<Rightarrow> Inr (fetch_all_rows ops ws))"

text \<open>
  Modelled from the spec: \<^verbatim>\<open>append_row\<close> (gspread's), all or nothing: the row
  is added after the last one, or the call raises and the sheet is as before.
\<close>

definition append_row ::
  "store_faults \<Rightarrow> 'f worksheet \<Rightarrow> 'f cell list \<Rightarrow> string + 'f worksheet" where
  "append_row faults ws vals =
     (case append_fault faults of
        Some e \<Rightarrow> Inl e
      | None \<Rightarrow> Inr (ws\<lparr>body := body ws @ [vals]\<rparr>))"

section \<open>Creating an order\<close>

text \<open>
  The loop of \<^verbatim>\<open>add_order\<close> over the fetched records, with the variable
  \<^verbatim>\<open>previous_price\<close> as accumulator. The comparison evaluates
  \<^verbatim>\<open>row.get("product_name", "").strip().lower()\<close> first, which raises on a number
  and leaves the loop (to the handler of the enclosing \<^verbatim>\<open>try\<close>). On a matching row
  \<^verbatim>\<open>previous_price\<close> becomes \<^verbatim>\<open>float(row.get("price", 0))\<close>, or
  \<^verbatim>\<open>None\<close> when that raises.
\<close>

fun scan_rows ::
  "'f float_ops \<Rightarrow> 'f order_request \<Rightarrow> 'f row list \<Rightarrow> 'f option \<Rightarrow> string + 'f option" where
  "scan_rows ops order [] previous_price = Inr previous_price"
| "scan_rows ops order (row # records) previous_price =
     (case strip_lower (row_get row ''product_name'' (CStr [])) of
        Inl e \<Rightarrow> Inl e
      | Inr name \<Rightarrow>
          if name = py_lower (py_strip (product_name order))
          then scan_rows ops order records
                 (case py_float ops (row_get row ''price'' (CInt 0)) of
                    Some x \<Rightarrow> Some x
                  | None \<Rightarrow> None)
          else scan_rows ops order records previous_price)"

text \<open>The lines after the loop: the delta and its string, or the sentinel.\<close>

definition price_change_text :: "'f float_ops \<Rightarrow> 'f order_request \<Rightarrow> 'f option \<Rightarrow> string" where
  "price_change_text ops order previous_price =
     (case previous_price of
        None \<Rightarrow> ''-''
      | Some p \<Rightarrow>
          (let price_change = fsub ops (price order) p
           in if \<not> is_zero ops price_change then fstr ops price_change else ''-''))"

text \<open>The list handed to \<^verbatim>\<open>append_row\<close>.\<close>

definition new_row :: "'f order_request \<Rightarrow> string \<Rightarrow> 'f cell list" where
  "new_row order lpc =
     [CStr (product_name order), CStr (supplier order), CFloat (price order),
      CInt (quantity order), CStr (purchase_date order), CStr (staff_in_charge order),
      CStr (approver order), CStr lpc]"

text \<open>
  \<^verbatim>\<open>add_order\<close> of \<^verbatim>\<open>BE/app.py\<close>: the reply and the sheet afterwards. Each
  \<open>Inl e\<close> branch is an exception leaving the \<^verbatim>\<open>try\<close> block for its handler,
  which returns the 500 reply.
\<close>

definition add_order ::
  "'f float_ops \<Rightarrow> store_faults \<Rightarrow> 'f order_request \<Rightarrow> 'f worksheet
     \<Rightarrow> order_response reply \<times> 'f worksheet" where
  "add_order ops faults order ws =
     (case get_gsheet faults ws of
        Inl e \<Rightarrow> (store_error e, ws)
      | Inr sheet \<Rightarrow>
          (case get_all_records ops faults sheet of
             Inl e \<Rightarrow> (store_error e, ws)
           | Inr records \<Rightarrow>
               (case scan_rows ops order records None of
                  Inl e \<Rightarrow> (store_error e, ws)
                | Inr previous_price \<Rightarrow>
                    (let lpc = price_change_text ops order previous_price
                     in case append_row faults sheet (new_row order lpc) of
                          Inl e \<Rightarrow> (store_error e, ws)
                        | Inr sheet' \<Rightarrow>
                            (Success (OrderResponse ''Order added successfully'' lpc),
                             sheet')))))"

text \<open>
  \<^verbatim>\<open>add_order\<close> of \<^verbatim>\<open>backup/BE_google_sheet/app.py\<close>: its loop, its delta and
  its appended list read as those of \<^verbatim>\<open>BE/app.py\<close>; the confirmation also echoes
  the request's fields.
\<close>

definition add_order_backup ::
  "'f float_ops \<Rightarrow> store_faults \<Rightarrow> 'f order_request \<Rightarrow> 'f worksheet
     \<Rightarrow> 'f order_response_echo reply \<times> 'f worksheet" where
  "add_order_backup ops faults order ws =
     (case get_gsheet faults ws of
        Inl e \<Rightarrow> (store_error e, ws)
      | Inr sheet \<Rightarrow>
          (case get_all_records ops faults sheet of
             Inl e \<Rightarrow> (store_error e, ws)
           | Inr records \<Rightarrow>
               (case scan_rows ops order records None of
                  Inl e \<Rightarrow> (store_error e, ws)
                | Inr previous_price \<Rightarrow>
                    (let lpc = price_change_text ops order previous_price
                     in case append_row faults sheet (new_row order lpc) of
                          Inl e \<Rightarrow> (store_error e, ws)
                        | Inr sheet' \<Rightarrow>
                            (Success (OrderResponseEcho ''Order added successfully'' order lpc),
                             sheet')))))"

section \<open>Listing the orders\<close>

text \<open>\<^verbatim>\<open>str(i)\<close> on an integer.\<close>

fun nat_digits :: "nat \<Rightarrow> string" where
  "nat_digits n =
     (if n < 10 then [char_of (48 + n)]
      else nat_digits (n div 10) @ [char_of (48 + n mod 10)])"

declare nat_digits.simps [simp del]

definition int_str :: "int \<Rightarrow> string" where
  "int_str i = (if i < 0 then CHR ''-'' # nat_digits (nat (- i)) else nat_digits (nat i))"

text \<open>\<^verbatim>\<open>str(v)\<close> on a cell.\<close>

fun py_str :: "'f float_ops \<Rightarrow> 'f cell \<Rightarrow> string" where
  "py_str ops (CStr s) = s"
| "py_str ops (CInt i) = int_str i"
| "py_str ops (CFloat x) = fstr ops x"

text \<open>
  The first statement of the loop body of \<^verbatim>\<open>get_order_history\<close>: when the row has
  the key, \<^verbatim>\<open>row["latest_price_change"] = str(row["latest_price_change"])\<close>.
\<close>

definition coerce_latest_price_change :: "'f float_ops \<Rightarrow> 'f row \<Rightarrow> 'f row" where
  "coerce_latest_price_change ops row =
     (case row ''latest_price_change'' of
        None \<Rightarrow> row
      | Some v \<Rightarrow> row(''latest_price_change'' \<mapsto> CStr (py_str ops v)))"

text \<open>
  The loop of \<^verbatim>\<open>get_order_history\<close>, with the list \<^verbatim>\<open>orders\<close> as
  accumulator. \<^verbatim>\<open>OrderHistoryItem(**row)\<close> is pydantic's validation, a parameter
  \<open>validate\<close> here: \<open>None\<close> when it raises. The handler of the inner
  \<^verbatim>\<open>try\<close> only prints.
\<close>

fun history_loop ::
  "('f row \<Rightarrow> 'f order_history_item option) \<Rightarrow> 'f float_ops \<Rightarrow> 'f row list
     \<Rightarrow> 'f order_history_item list \<Rightarrow> 'f order_history_item list" where
  "history_loop validate ops [] orders = orders"
| "history_loop validate ops (row # records) orders =
     (let row' = coerce_latest_price_change ops row
      in case validate row' of
           Some item \<Rightarrow> history_loop validate ops records (orders @ [item])
         | None \<Rightarrow> history_loop validate ops records orders)"

definition get_order_history ::
  "('f row \<Rightarrow> 'f order_history_item option) \<Rightarrow> 'f float_ops \<Rightarrow> store_faults
     \<Rightarrow> 'f worksheet \<Rightarrow> 'f order_history_response reply \<times> 'f worksheet" where
  "get_order_history validate ops faults ws =
     (case get_gsheet faults ws of
        Inl e \<Rightarrow> (store_error e, ws)
      | Inr sheet \<Rightarrow>
          (case get_all_records ops faults sheet of
             Inl e \<Rightarrow> (store_error e, ws)
           | Inr records \<Rightarrow>
               (Success (OrderHistoryResponse (history_loop validate ops records [])), ws)))"

section \<open>Calls one after another\<close>

text \<open>
  A sequence of \<^verbatim>\<open>POST /orders\<close> requests served one after another on the same
  sheet: the replies in order, and the sheet at the end.
\<close>

fun add_orders ::
  "'f float_ops \<Rightarrow> store_faults \<Rightarrow> 'f order_request list \<Rightarrow> 'f worksheet
     \<Rightarrow> order_response reply list \<times> 'f worksheet" where
  "add_orders ops faults [] ws = ([], ws)"
| "add_orders ops faults (order # rest) ws =
     (case add_order ops faults order ws of
        (r, ws') \<Rightarrow> (case add_orders ops faults rest ws' of (rs, ws'') \<Rightarrow> (r # rs, ws'')))"

section \<open>An exact decimal instance of the float operations\<close>

text \<open>
  For evaluating the service on concrete inputs: a number is a pair \<open>(m, e)\<close> standing
  for \<open>m / 10 ^ e\<close>, subtraction is exact, and a string parses when it is an optionally
  signed plain decimal numeral, surrounded by whitespace or not. On the numerals used
  below (small integers and halves, and the strings \<^verbatim>\<open>"abc"\<close> and \<^verbatim>\<open>""\<close>)
  these operations give what CPython's \<^verbatim>\<open>float\<close> gives.
\<close>

type_synonym dec = "int \<times> nat"

definition dec_of_unsigned :: "string \<Rightarrow> dec option" where
  "dec_of_unsigned t =
     (let ip = takeWhile is_digit t; rest = dropWhile is_digit t
      in case rest of
           [] \<Rightarrow> if ip = [] then None else Some (int (digits_val ip), 0)
         | c # fp \<Rightarrow>
             if c = CHR ''.'' \<and> list_all is_digit fp \<and> 0 < length ip + length fp
             then Some (int (digits_val (ip @ fp)), length fp)
             else None)"

definition dec_of_str :: "string \<Rightarrow> dec option" where
  "dec_of_str s =
     (case py_strip s of
        [] \<Rightarrow> None
      | c # t \<Rightarrow>
          if c = CHR ''-'' then map_option (\<lambda>(m, e). (- m, e)) (dec_of_unsigned t)
          else if c = CHR ''+'' then dec_of_unsigned t
          else dec_of_unsigned (c # t))"

definition dec_sub :: "dec \<Rightarrow> dec \<Rightarrow> dec" where
  "dec_sub x y =
     (case x of (m1, e1) \<Rightarrow> case y of (m2, e2) \<Rightarrow>
        (m1 * 10 ^ (max e1 e2 - e1) - m2 * 10 ^ (max e1 e2 - e2), max e1 e2))"

definition dec_less :: "dec \<Rightarrow> dec \<Rightarrow> bool" where
  "dec_less x y = (case x of (m1, e1) \<Rightarrow> case y of (m2, e2) \<Rightarrow> m1 * 10 ^ e2 < m2 * 10 ^ e1)"

fun dec_norm :: "int \<Rightarrow> nat \<Rightarrow> dec" where
  "dec_norm m 0 = (m, 0)"
| "dec_norm m (Suc e) = (if m mod 10 = 0 then dec_norm (m div 10) e else (m, Suc e))"

definition dec_str :: "dec \<Rightarrow> string" where
  "dec_str x =
     (case x of (m0, e0) \<Rightarrow> case dec_norm m0 e0 of (m, e) \<Rightarrow>
        (let a = nat \<bar>m\<bar>; ip = nat_digits (a div 10 ^ e); fp = nat_digits (a mod 10 ^ e)
         in (if m < 0 then ''-'' else []) @ ip @ ''.'' @
            (if e = 0 then ''0'' else replicate (e - length fp) (CHR ''0'') @ fp)))"

definition dec_ops :: "dec float_ops" where
  "dec_ops =
     \<lparr>float_of_str = dec_of_str,
      float_of_int = (\<lambda>i. Some (i, 0)),
      fsub = dec_sub,
      is_zero = (\<lambda>x. fst x = 0),
      fstr = dec_str\<rparr>"

text \<open>
  A validation for evaluating \<^verbatim>\<open>get_order_history\<close> on concrete inputs: the seven
  required fields must be present, text fields text, the quantity an integer and the
  price convertible by \<^verbatim>\<open>float\<close>; \<^verbatim>\<open>latest_price_change\<close> defaults to
  \<^verbatim>\<open>"-"\<close>.
\<close>

definition text_field :: "'f row \<Rightarrow> string \<Rightarrow> string option" where
  "text_field row key = (case row key of Some (CStr s) \<Rightarrow> Some s | _ \<Rightarrow> None)"

definition int_field :: "'f row \<Rightarrow> string \<Rightarrow> int option" where
  "int_field row key = (case row key of Some (CInt i) \<Rightarrow> Some i | _ \<Rightarrow> None)"

definition float_field :: "'f float_ops \<Rightarrow> 'f row \<Rightarrow> string \<Rightarrow> 'f option" where
  "float_field ops row key = (case row key of Some v \<Rightarrow> py_float ops v | None \<Rightarrow> None)"

definition strict_item :: "'f float_ops \<Rightarrow> 'f row \<Rightarrow> 'f order_history_item option" where
  "strict_item ops row =
     (case (text_field row ''product_name'', text_field row ''supplier'',
            float_field ops row ''price'', int_field row ''quantity'',
            text_field row ''purchase_date'', text_field row ''staff_in_charge'',
            text_field row ''approver'') of
        (Some n, Some s, Some p, Some q, Some d, Some st, Some a) \<Rightarrow>
          (case row ''latest_price_change'' of
             None \<Rightarrow>
               Some \<lparr>product_name = n, supplier = s, price = p, quantity = q,
                     purchase_date = d, staff_in_charge = st, approver = a,
                     latest_price_change = ''-''\<rparr>
           | Some (CStr c) \<Rightarrow>
               Some \<lparr>product_name = n, supplier = s, price = p, quantity = q,
                     purchase_date = d, staff_in_charge = st, approver = a,
                     latest_price_change = c\<rparr>
           | Some _ \<Rightarrow> None)
      | _ \<Rightarrow> None)"

section \<open>Notions used to state the properties\<close>

text \<open>The product name of a fetched row is text (or the row has none).\<close>

fun is_text :: "'f cell \<Rightarrow> bool" where
  "is_text (CStr s) = True"
| "is_text (CInt i) = False"
| "is_text (CFloat x) = False"

definition name_is_text :: "'f row \<Rightarrow> bool" where
  "name_is_text row = is_text (row_get row ''product_name'' (CStr []))"

text \<open>
  A row matches a request: its product name equals the request's under the trimmed,
  lower-cased comparison.
\<close>

definition matches :: "'f order_request \<Rightarrow> 'f row \<Rightarrow> bool" where
  "matches order row =
     (strip_lower (row_get row ''product_name'' (CStr [])) =
        Inr (py_lower (py_strip (product_name order))))"

text \<open>The price of a row, when \<^verbatim>\<open>float\<close> accepts its price field.\<close>

definition row_price :: "'f float_ops \<Rightarrow> 'f row \<Rightarrow> 'f option" where
  "row_price ops row = py_float ops (row_get row ''price'' (CInt 0))"

text \<open>The price of the last matching row: absent when no row matches or it does not parse.\<close>

definition last_match_price :: "'f float_ops \<Rightarrow> 'f order_request \<Rightarrow> 'f row list \<Rightarrow> 'f option" where
  "last_match_price ops order records =
     (case filter (matches order) records of
        [] \<Rightarrow> None
      | m # ms \<Rightarrow> row_price ops (last (m # ms)))"

text \<open>
  The previous price in the words of the specification: a matching row whose price does
  not parse is passed over, and the price of the last matching row that parses is kept.
\<close>

definition claimed_previous_price ::
  "'f float_ops \<Rightarrow> 'f order_request \<Rightarrow> 'f row list \<Rightarrow> 'f option" where
  "claimed_previous_price ops order records =
     (case List.map_filter (row_price ops) (filter (matches order) records) of
        [] \<Rightarrow> None
      | p # ps \<Rightarrow> Some (last (p # ps)))"

text \<open>The confirmation of the backup copy that corresponds to one of \<^verbatim>\<open>BE/app.py\<close>.\<close>

definition echo_reply ::
  "'f order_request \<Rightarrow> order_response reply \<Rightarrow> 'f order_response_echo reply" where
  "echo_reply order r =
     (case r of
        JSONResponse c d \<Rightarrow> JSONResponse c d
      | Success x \<Rightarrow>
          Success (OrderResponseEcho (resp_message x) order (resp_latest_price_change x)))"

text \<open>The columns of the sheet, in the order \<^verbatim>\<open>add_order\<close> appends the values.\<close>

definition order_columns :: "string list" where
  "order_columns =
     [''product_name'', ''supplier'', ''price'', ''quantity'', ''purchase_date'',
      ''staff_in_charge'', ''approver'', ''latest_price_change'']"

text \<open>
  The replies expected from a run of requests whose predecessor had price \<open>p0\<close>: each
  carries the string of the difference to the price before it.
\<close>

fun delta_replies :: "'f float_ops \<Rightarrow> 'f \<Rightarrow> 'f list \<Rightarrow> order_response reply list" where
  "delta_replies ops p0 [] = []"
| "delta_replies ops p0 (p # ps) =
     Success (OrderResponse ''Order added successfully'' (fstr ops (fsub ops p p0)))
       # delta_replies ops p ps"

subsection \<open>Concrete inputs\<close>

definition no_faults :: store_faults where
  "no_faults = \<lparr>open_fault = None, read_fault = None, append_fault = None\<rparr>"

definition read_down :: store_faults where
  "read_down = \<lparr>open_fault = None, read_fault = Some ''Connection reset'', append_fault = None\<rparr>"

definition append_down :: store_faults where
  "append_down = \<lparr>open_fault = None, read_fault = None, append_fault = Some ''Quota exceeded''\<rparr>"

text \<open>The sheet of the specification's example: Widget at 10.0, then at 12.0.\<close>

definition widget_sheet :: "dec worksheet" where
  "widget_sheet =
     \<lparr>header = order_columns,
      body =
        [[CStr ''Widget'', CStr ''Acme'', CInt 10, CInt 4, CStr ''2024-01-05'', CStr ''Ann'',
          CStr ''Bob'', CStr ''-''],
         [CStr ''widget '', CStr ''Acme'', CFloat (120, 1), CInt 2, CStr ''2024-02-05'',
          CStr ''Ann'', CStr ''Bob'', CInt 2]]\<rparr>"

definition widget_records :: "dec row list" where
  "widget_records = fetch_all_rows dec_ops widget_sheet"

definition widget_order :: "dec order_request" where
  "widget_order =
     \<lparr>product_name = ''Widget'', supplier = ''Acme'', price = (15, 0), quantity = 3,
      purchase_date = ''2024-03-05'', staff_in_charge = ''Ann'', approver = ''Bob''\<rparr>"

text \<open>Widget at 10, then a Widget row whose price cell is the text \<^verbatim>\<open>abc\<close>.\<close>

definition garbled_records :: "dec row list" where
  "garbled_records =
     map (record_of order_columns)
       [[CStr ''Widget'', CStr ''Acme'', CInt 10, CInt 4, CStr ''2024-01-05'', CStr ''Ann'',
         CStr ''Bob'', CStr ''-''],
        [CStr ''Widget'', CStr ''Acme'', CStr ''abc'', CInt 2, CStr ''2024-02-05'',
         CStr ''Ann'', CStr ''Bob'', CStr ''-'']]"

text \<open>Gadget at 7, then a Gadget row whose price cell is empty.\<close>

definition gadget_sheet :: "dec worksheet" where
  "gadget_sheet =
     \<lparr>header = order_columns,
      body =
        [[CStr ''Gadget'', CStr ''Bolt'', CInt 7, CInt 1, CStr ''2024-01-09'', CStr ''Cy'',
          CStr ''Di'', CStr ''-''],
         [CStr ''Gadget'', CStr ''Bolt'', CStr [], CInt 1, CStr ''2024-02-09'', CStr ''Cy'',
          CStr ''Di'', CStr ''-'']]\<rparr>"

definition gadget_order :: "dec order_request" where
  "gadget_order =
     \<lparr>product_name = ''Gadget'', supplier = ''Bolt'', price = (9, 0), quantity = 1,
      purchase_date = ''2024-03-09'', staff_in_charge = ''Cy'', approver = ''Di''\<rparr>"


text \<open>A sheet whose second row has no quantity a number could be read from.\<close>

definition mixed_sheet :: "dec worksheet" where
  "mixed_sheet =
     \<lparr>header = order_columns,
      body =
        [[CStr ''Widget'', CStr ''Acme'', CInt 10, CInt 4, CStr ''2024-01-05'', CStr ''Ann'',
          CStr ''Bob'', CStr ''-''],
         [CStr ''Widget'', CStr ''Acme'', CInt 11, CStr ''many'', CStr ''2024-01-20'',
          CStr ''Ann'', CStr ''Bob'', CInt 1],
         [CStr ''Widget'', CStr ''Acme'', CFloat (120, 1), CInt 2, CStr ''2024-02-05'',
          CStr ''Ann'', CStr ''Bob'', CInt 2]]\<rparr>"

text \<open>Three requests for Widget at rising prices.\<close>

definition rising_orders :: "dec order_request list" where
  "rising_orders =
     [widget_order, widget_order\<lparr>product_name := '' WIDGET'', price := (175, 1)\<rparr>,
      widget_order\<lparr>price := (20, 0)\<rparr>]"

text \<open>An empty sheet, and two requests at rising prices for a product named \<^verbatim>\<open>123\<close>.\<close>

definition blank_sheet :: "dec worksheet" where
  "blank_sheet = \<lparr>header = order_columns, body = []\<rparr>"

definition numeric_orders :: "dec order_request list" where
  "numeric_orders =
     [\<lparr>product_name = ''123'', supplier = ''Acme'', price = (10, 0), quantity = 1,
       purchase_date = ''2024-04-01'', staff_in_charge = ''Ann'', approver = ''Bob''\<rparr>,
      \<lparr>product_name = ''123'', supplier = ''Acme'', price = (125, 1), quantity = 1,
       purchase_date = ''2024-04-02'', staff_in_charge = ''Ann'', approver = ''Bob''\<rparr>]"


section \<open>Properties of \<^verbatim>\<open>add_order\<close> and \<^verbatim>\<open>get_order_history\<close>\<close>

subsection \<open>What a reply of \<^verbatim>\<open>add_order\<close> tells about the call\<close>

lemma add_order_success:
  assumes "add_order ops faults order ws = (Success r, ws')"
  shows "\<exists>records previous_price.
           get_all_records ops faults ws = Inr records \<and>
           scan_rows ops order records None = Inr previous_price \<and>
           r = OrderResponse ''Order added successfully''
                 (price_change_text ops order previous_price) \<and>
           ws' = ws\<lparr>body := body ws @
                   [new_row order (price_change_text ops order previous_price)]\<rparr>"
  using assms
  by (auto simp: add_order_def get_gsheet_def append_row_def store_error_def Let_def
           split: sum.splits option.splits)

lemma add_order_backup_success:
  assumes "add_order_backup ops faults order ws = (Success r, ws')"
  shows "\<exists>records previous_price.
           get_all_records ops faults ws = Inr records \<and>
           scan_rows ops order records None = Inr previous_price \<and>
           r = OrderResponseEcho ''Order added successfully'' order
                 (price_change_text ops order previous_price) \<and>
           ws' = ws\<lparr>body := body ws @
                   [new_row order (price_change_text ops order previous_price)]\<rparr>"
  using assms
  by (auto simp: add_order_backup_def get_gsheet_def append_row_def store_error_def Let_def
           split: sum.splits option.splits)

lemma add_order_failure:
  assumes "add_order ops faults order ws = (JSONResponse c d, ws')"
  shows "ws' = ws"
  using assms
  by (auto simp: add_order_def store_error_def Let_def split: sum.splits)

lemma add_order_backup_failure:
  assumes "add_order_backup ops faults order ws = (JSONResponse c d, ws')"
  shows "ws' = ws"
  using assms
  by (auto simp: add_order_backup_def store_error_def Let_def split: sum.splits)

lemma get_order_history_sheet: "snd (get_order_history validate ops faults ws) = ws"
  by (simp add: get_order_history_def split: sum.splits)

subsection \<open>The scan for the previous price\<close>

lemma scan_rows_text:
  "list_all name_is_text records \<Longrightarrow>
   scan_rows ops order records prev =
     Inr (case filter (matches order) records of
            [] \<Rightarrow> prev
          | m # ms \<Rightarrow> row_price ops (last (m # ms)))"
proof (induction records arbitrary: prev)
  case Nil
  show ?case by simp
next
  case (Cons row records)
  from Cons.prems obtain s where s: "row_get row ''product_name'' (CStr []) = CStr s"
    by (cases "row_get row ''product_name'' (CStr [])") (simp_all add: name_is_text_def)
  from Cons.prems have rest: "list_all name_is_text records" by simp
  show ?case
  proof (cases "matches order row")
    case True
    then have eq: "py_lower (py_strip s) = py_lower (py_strip (product_name order))"
      by (simp add: matches_def s)
    have keep: "(case py_float ops (row_get row ''price'' (CInt 0)) of
                   Some x \<Rightarrow> Some x | None \<Rightarrow> None) = row_price ops row"
      by (simp add: row_price_def split: option.splits)
    show ?thesis
      using True eq
      by (simp add: s keep Cons.IH [OF rest] split: list.splits)
  next
    case False
    then have ne: "py_lower (py_strip s) \<noteq> py_lower (py_strip (product_name order))"
      by (simp add: matches_def s)
    show ?thesis
      using False ne by (simp add: s Cons.IH [OF rest])
  qed
qed

lemma scan_rows_Inr_text:
  "scan_rows ops order records prev = Inr p \<Longrightarrow> list_all name_is_text records"
proof (induction records arbitrary: prev)
  case Nil
  show ?case by simp
next
  case (Cons row records)
  show ?case
  proof (cases "row_get row ''product_name'' (CStr [])")
    case (CStr s)
    with Cons.prems Cons.IH show ?thesis
      by (auto simp: name_is_text_def split: if_splits)
  next
    case (CInt i)
    with Cons.prems show ?thesis by simp
  next
    case (CFloat x)
    with Cons.prems show ?thesis by simp
  qed
qed

lemma scan_rows_last_match:
  "list_all name_is_text records \<Longrightarrow>
   scan_rows ops order records None = Inr (last_match_price ops order records)"
  by (simp add: scan_rows_text last_match_price_def)

lemma dec_str_has_point: "CHR ''.'' \<in> set (dec_str x)"
proof (cases x)
  case (Pair m0 e0)
  obtain m e where "dec_norm m0 e0 = (m, e)" by (cases "dec_norm m0 e0")
  with Pair show ?thesis by (simp add: dec_str_def Let_def)
qed

lemma dec_str_not_dash: "fstr dec_ops d \<noteq> ''-''"
proof
  assume "fstr dec_ops d = ''-''"
  then have "dec_str d = ''-''" by (simp add: dec_ops_def)
  with dec_str_has_point [of d] show False by simp
qed

text \<open>
  Claim C1, as the specification words it: the previous price is the price of the last
  matching row whose price parses, a later matching row with an unparsable price leaving
  it in place. The code does otherwise: after Widget at 10 and a Widget row with price
  \<^verbatim>\<open>abc\<close>, the scan ends with no previous price, where the claim has 10.
\<close>

theorem parse_failure_discards_counterexample:
  "scan_rows dec_ops widget_order garbled_records None = Inr None \<and>
   claimed_previous_price dec_ops widget_order garbled_records = Some (10, 0)"
  by code_simp

text \<open>
  Claim C1, amended: when the product names of the fetched rows are text, the scan ends
  with the price of the last matching row in store order, and with no previous price
  when no row matches or when the price of that last matching row does not parse (so a
  parse failure on a later matching row discards the price of an earlier one).
\<close>

theorem previous_price_is_last_match:
  assumes "list_all name_is_text records"
  shows "scan_rows ops order records None = Inr (last_match_price ops order records)"
  using assms by (rule scan_rows_last_match)

theorem previous_price_is_last_match_witness:
  "list_all name_is_text widget_records \<and>
   scan_rows dec_ops widget_order widget_records None = Inr (Some (120, 1))"
proof -
  have h: "list_all name_is_text widget_records" by code_simp
  have v: "last_match_price dec_ops widget_order widget_records = Some (120, 1)"
    by code_simp
  from previous_price_is_last_match [OF h, of dec_ops widget_order] h v
  show ?thesis by simp
qed

subsection \<open>The price change\<close>

lemma price_change_text_dash:
  assumes "\<And>d. fstr ops d \<noteq> ''-''"
  shows "(price_change_text ops order prev = ''-'') =
           (case prev of None \<Rightarrow> True | Some p \<Rightarrow> is_zero ops (fsub ops (price order) p))"
  using assms by (simp add: price_change_text_def Let_def split: option.splits)

text \<open>
  Claim C2, as stated: latest_price_change is the sentinel exactly when no fetched row
  matches with a parsable price or the previous price equals the request's. It fails
  after Gadget at 7 and a Gadget row with an empty price cell: a matching row with a
  parsable price exists (the claimed previous price is 7), the request's price 9 differs
  from it, and the confirmation still carries the sentinel.
\<close>

theorem sentinel_despite_priced_match_counterexample:
  "fst (add_order dec_ops no_faults gadget_order gadget_sheet) =
     Success (OrderResponse ''Order added successfully'' ''-'') \<and>
   claimed_previous_price dec_ops gadget_order
     (fetch_all_rows dec_ops gadget_sheet) = Some (7, 0) \<and>
   \<not> is_zero dec_ops (fsub dec_ops (price gadget_order) (7, 0))"
  by code_simp

text \<open>
  Claim C2, amended: in the confirmation of a successful create request,
  latest_price_change is the sentinel exactly when the scan retained no previous price
  (no fetched row matches, or the price of the last matching row does not parse) or the
  difference of the request's price and the retained price is zero; otherwise it is the
  string of that difference. (No float has the string of the sentinel.)
\<close>

theorem sentinel_or_delta:
  assumes str: "\<And>d. fstr ops d \<noteq> ''-''"
    and ok: "add_order ops faults order ws = (Success r, ws')"
  shows "resp_latest_price_change r =
           (case last_match_price ops order (fetch_all_rows ops ws) of
              None \<Rightarrow> ''-''
            | Some p \<Rightarrow>
                if is_zero ops (fsub ops (price order) p) then ''-''
                else fstr ops (fsub ops (price order) p)) \<and>
         (resp_latest_price_change r = ''-'') =
           (case last_match_price ops order (fetch_all_rows ops ws) of
              None \<Rightarrow> True
            | Some p \<Rightarrow> is_zero ops (fsub ops (price order) p))"
proof -
  from add_order_success [OF ok] obtain records prev where
    recs: "get_all_records ops faults ws = Inr records" and
    scan: "scan_rows ops order records None = Inr prev" and
    r: "r = OrderResponse ''Order added successfully'' (price_change_text ops order prev)"
    by blast
  from recs have records: "records = fetch_all_rows ops ws"
    by (auto simp: get_all_records_def split: option.splits)
  from scan have "list_all name_is_text records" by (rule scan_rows_Inr_text)
  then have "scan_rows ops order records None = Inr (last_match_price ops order records)"
    by (rule scan_rows_last_match)
  with scan have prev: "prev = last_match_price ops order records" by simp
  have lpc: "resp_latest_price_change r =
               price_change_text ops order (last_match_price ops order records)"
    by (simp add: r prev)
  show ?thesis
    unfolding lpc records [symmetric]
    using price_change_text_dash [of ops order "last_match_price ops order records", OF str]
    by (simp add: price_change_text_def Let_def split: option.splits)
qed

theorem sentinel_or_delta_witness:
  "add_order dec_ops no_faults widget_order widget_sheet =
     (Success (OrderResponse ''Order added successfully'' ''3.0''),
      widget_sheet\<lparr>body := body widget_sheet @ [new_row widget_order ''3.0'']\<rparr>) \<and>
   last_match_price dec_ops widget_order widget_records = Some (120, 1) \<and>
   fstr dec_ops (fsub dec_ops (price widget_order) (120, 1)) = ''3.0'' \<and>
   \<not> is_zero dec_ops (fsub dec_ops (price widget_order) (120, 1))"
proof -
  have ok: "add_order dec_ops no_faults widget_order widget_sheet =
     (Success (OrderResponse ''Order added successfully'' ''3.0''),
      widget_sheet\<lparr>body := body widget_sheet @ [new_row widget_order ''3.0'']\<rparr>)"
    by code_simp
  have v: "last_match_price dec_ops widget_order widget_records = Some (120, 1)"
    by code_simp
  from sentinel_or_delta [OF dec_str_not_dash ok] ok v
  show ?thesis by (simp add: widget_records_def split: if_splits)
qed



subsection \<open>The product name is compared trimmed and lower-cased\<close>

lemma py_lower_char_space: "py_isspace (py_lower_char c) = py_isspace c"
  by (auto simp: py_isspace_def py_lower_char_def Let_def)

lemma py_isspace_lower_comp: "py_isspace \<circ> py_lower_char = py_isspace"
  by (rule ext) (simp add: py_lower_char_space)

lemma dropWhile_space_lower:
  "dropWhile py_isspace (map py_lower_char xs) = map py_lower_char (dropWhile py_isspace xs)"
  by (simp add: dropWhile_map py_isspace_lower_comp)

lemma py_strip_lower: "py_strip (py_lower s) = py_lower (py_strip s)"
  by (simp only: py_strip_def py_lower_def dropWhile_space_lower rev_map)

lemma dropWhile_all: "list_all P xs \<Longrightarrow> dropWhile P (xs @ ys) = dropWhile P ys"
  by (induction xs) simp_all

lemma py_strip_padding:
  assumes l: "list_all py_isspace l" and r: "list_all py_isspace r"
  shows "py_strip (l @ c @ r) = py_strip c"
proof -
  have r': "list_all py_isspace (rev r)" using r by (simp add: list_all_iff)
  have front: "dropWhile py_isspace (l @ c @ r) = dropWhile py_isspace (c @ r)"
    using l by (rule dropWhile_all)
  show ?thesis
  proof (cases "list_all py_isspace c")
    case True
    with r have cr: "dropWhile py_isspace (c @ r) = []"
      by (simp add: dropWhile_eq_Nil_conv list_all_iff)
    from True have c: "dropWhile py_isspace c = []"
      by (simp add: dropWhile_eq_Nil_conv list_all_iff)
    have "py_strip (l @ c @ r) = []" unfolding py_strip_def front cr by simp
    moreover have "py_strip c = []" unfolding py_strip_def c by simp
    ultimately show ?thesis by simp
  next
    case False
    then have "dropWhile py_isspace (c @ r) = dropWhile py_isspace c @ r"
      by (auto simp: dropWhile_append1 list_all_iff)
    then have "rev (dropWhile py_isspace (l @ c @ r)) = rev r @ rev (dropWhile py_isspace c)"
      by (simp add: front)
    then show ?thesis
      by (simp add: py_strip_def dropWhile_all [OF r'])
  qed
qed

lemma normalise_name:
  assumes "list_all py_isspace la" and "list_all py_isspace ra"
    and "list_all py_isspace lb" and "list_all py_isspace rb"
    and "py_lower ca = py_lower cb"
  shows "py_lower (py_strip (la @ ca @ ra)) = py_lower (py_strip (lb @ cb @ rb))"
proof -
  have "py_lower (py_strip (la @ ca @ ra)) = py_strip (py_lower ca)"
    by (simp add: py_strip_padding [OF assms(1,2)] py_strip_lower)
  also have "\<dots> = py_strip (py_lower cb)" by (simp add: assms(5))
  also have "\<dots> = py_lower (py_strip (lb @ cb @ rb))"
    by (simp add: py_strip_padding [OF assms(3,4)] py_strip_lower)
  finally show ?thesis .
qed

lemma scan_rows_name:
  assumes "py_lower (py_strip (product_name a)) = py_lower (py_strip (product_name b))"
  shows "scan_rows ops a records prev = scan_rows ops b records prev"
  using assms
  by (induction records arbitrary: prev) (simp_all split: sum.splits)

lemma add_order_reply_name:
  assumes "py_lower (py_strip (product_name a)) = py_lower (py_strip (product_name b))"
    and "price a = price b"
  shows "fst (add_order ops faults a ws) = fst (add_order ops faults b ws)"
  using scan_rows_name [OF assms(1)] assms(2)
  by (simp add: add_order_def append_row_def price_change_text_def Let_def
           split: sum.splits option.splits)

text \<open>
  Claim C4: two create requests that agree in every field but the product name, whose
  names are the same text up to letter case with whitespace added before or after, get
  the same reply on the same sheet, so the same latest_price_change (or the same
  failure). The names are \<open>la @ ca @ ra\<close> and \<open>lb @ cb @ rb\<close> with whitespace
  \<open>la\<close>, \<open>ra\<close>, \<open>lb\<close>, \<open>rb\<close> and \<open>ca\<close>, \<open>cb\<close> equal up to case.
\<close>

theorem name_case_and_padding_irrelevant:
  assumes "list_all py_isspace la" and "list_all py_isspace ra"
    and "list_all py_isspace lb" and "list_all py_isspace rb"
    and "py_lower ca = py_lower cb"
  shows "fst (add_order ops faults (order\<lparr>product_name := la @ ca @ ra\<rparr>) ws) =
         fst (add_order ops faults (order\<lparr>product_name := lb @ cb @ rb\<rparr>) ws)"
  by (rule add_order_reply_name) (simp_all add: normalise_name [OF assms])

theorem name_case_and_padding_irrelevant_witness:
  "list_all py_isspace '' '' \<and> list_all py_isspace [] \<and> list_all py_isspace ''  '' \<and>
   py_lower ''Widget'' = py_lower ''WIDGET'' \<and>
   fst (add_order dec_ops no_faults (widget_order\<lparr>product_name := '' Widget''\<rparr>) widget_sheet) =
     Success (OrderResponse ''Order added successfully'' ''3.0'') \<and>
   fst (add_order dec_ops no_faults (widget_order\<lparr>product_name := ''WIDGET  ''\<rparr>) widget_sheet) =
     Success (OrderResponse ''Order added successfully'' ''3.0'')"
proof -
  have a: "list_all py_isspace '' ''" by code_simp
  have b: "list_all py_isspace []" by simp
  have c: "list_all py_isspace ''  ''" by code_simp
  have d: "py_lower ''Widget'' = py_lower ''WIDGET''" by code_simp
  have e: "fst (add_order dec_ops no_faults (widget_order\<lparr>product_name := '' Widget''\<rparr>)
             widget_sheet) = Success (OrderResponse ''Order added successfully'' ''3.0'')"
    by code_simp
  from name_case_and_padding_irrelevant [OF a b b c d, where ops = dec_ops
         and faults = no_faults and order = widget_order and ws = widget_sheet] a b c d e
  show ?thesis by simp
qed

subsection \<open>Listing\<close>

lemma history_loop_acc:
  "history_loop validate ops records acc =
     acc @ List.map_filter validate (map (coerce_latest_price_change ops) records)"
proof (induction records arbitrary: acc)
  case Nil
  show ?case by simp
next
  case (Cons row records)
  show ?case
    by (cases "validate (coerce_latest_price_change ops row)")
       (simp_all add: Cons.IH Let_def)
qed

text \<open>
  Claim C5: for every fetched sequence of rows, the loop of ListOrders returns exactly the
  rows that validate (after the coercion of latest_price_change to a string), in store
  order, and omits the others; on no rows it returns the empty list; and when the store
  can be opened and read the reply is the success reply carrying that list, whatever the
  rows are.
\<close>

theorem list_orders_drops_bad_rows:
  "history_loop validate ops records [] =
     List.map_filter validate (map (coerce_latest_price_change ops) records) \<and>
   history_loop validate ops [] [] = [] \<and>
   (open_fault faults = None \<and> read_fault faults = None \<longrightarrow>
      fst (get_order_history validate ops faults ws) =
        Success (OrderHistoryResponse
          (history_loop validate ops (fetch_all_rows ops ws) [])))"
  by (simp add: history_loop_acc get_order_history_def get_gsheet_def get_all_records_def)

theorem list_orders_drops_bad_rows_witness:
  "open_fault no_faults = None \<and> read_fault no_faults = None \<and>
   fst (get_order_history (strict_item dec_ops) dec_ops no_faults mixed_sheet) =
     Success (OrderHistoryResponse
       [\<lparr>product_name = ''Widget'', supplier = ''Acme'', price = (10, 0), quantity = 4,
         purchase_date = ''2024-01-05'', staff_in_charge = ''Ann'', approver = ''Bob'',
         latest_price_change = ''-''\<rparr>,
        \<lparr>product_name = ''Widget'', supplier = ''Acme'', price = (120, 1), quantity = 2,
         purchase_date = ''2024-02-05'', staff_in_charge = ''Ann'', approver = ''Bob'',
         latest_price_change = ''2''\<rparr>])"
proof -
  have a: "open_fault no_faults = None \<and> read_fault no_faults = None"
    by (simp add: no_faults_def)
  have e: "history_loop (strict_item dec_ops) dec_ops
             (fetch_all_rows dec_ops mixed_sheet) [] =
       [\<lparr>product_name = ''Widget'', supplier = ''Acme'', price = (10, 0), quantity = 4,
         purchase_date = ''2024-01-05'', staff_in_charge = ''Ann'', approver = ''Bob'',
         latest_price_change = ''-''\<rparr>,
        \<lparr>product_name = ''Widget'', supplier = ''Acme'', price = (120, 1), quantity = 2,
         purchase_date = ''2024-02-05'', staff_in_charge = ''Ann'', approver = ''Bob'',
         latest_price_change = ''2''\<rparr>]"
    by code_simp
  from list_orders_drops_bad_rows [where validate = "strict_item dec_ops" and ops = dec_ops
         and records = "[]" and faults = no_faults and ws = mixed_sheet] a e
  show ?thesis by simp
qed

subsection \<open>Store failures\<close>

text \<open>
  Claim C6: when opening or reading the store raises with message \<open>m\<close>, CreateOrder
  (both copies) and ListOrders reply with status 500 and the detail
  \<^verbatim>\<open>Error accessing Google Sheet: \<close> followed by \<open>m\<close> as it is, ListOrders
  returning no orders; and so does CreateOrder when the append raises with \<open>m\<close> after a
  scan that went through.
\<close>

theorem store_failure_reply:
  "(open_fault faults = Some m \<or> (open_fault faults = None \<and> read_fault faults = Some m) \<longrightarrow>
      fst (add_order ops faults order ws) =
        JSONResponse 500 (''Error accessing Google Sheet: '' @ m) \<and>
      fst (add_order_backup ops faults order ws) =
        JSONResponse 500 (''Error accessing Google Sheet: '' @ m) \<and>
      fst (get_order_history validate ops faults ws) =
        JSONResponse 500 (''Error accessing Google Sheet: '' @ m)) \<and>
   (open_fault faults = None \<and> read_fault faults = None \<and> append_fault faults = Some m \<and>
    scan_rows ops order (fetch_all_rows ops ws) None = Inr p \<longrightarrow>
      fst (add_order ops faults order ws) =
        JSONResponse 500 (''Error accessing Google Sheet: '' @ m) \<and>
      fst (add_order_backup ops faults order ws) =
        JSONResponse 500 (''Error accessing Google Sheet: '' @ m))"
  by (auto simp: add_order_def add_order_backup_def get_order_history_def get_gsheet_def
        get_all_records_def append_row_def store_error_def Let_def)

theorem store_failure_reply_witness:
  "open_fault read_down = None \<and> read_fault read_down = Some ''Connection reset'' \<and>
   fst (get_order_history (strict_item dec_ops) dec_ops read_down widget_sheet) =
     JSONResponse 500 ''Error accessing Google Sheet: Connection reset'' \<and>
   fst (add_order dec_ops read_down widget_order widget_sheet) =
     JSONResponse 500 ''Error accessing Google Sheet: Connection reset'' \<and>
   open_fault append_down = None \<and> read_fault append_down = None \<and>
   append_fault append_down = Some ''Quota exceeded'' \<and>
   scan_rows dec_ops widget_order
     (fetch_all_rows dec_ops widget_sheet) None = Inr (Some (120, 1)) \<and>
   fst (add_order dec_ops append_down widget_order widget_sheet) =
     JSONResponse 500 ''Error accessing Google Sheet: Quota exceeded''"
proof -
  have a: "open_fault read_down = None \<and> read_fault read_down = Some ''Connection reset''"
    by (simp add: read_down_def)
  have b: "open_fault append_down = None \<and> read_fault append_down = None \<and>
           append_fault append_down = Some ''Quota exceeded''"
    by (simp add: append_down_def)
  have s: "scan_rows dec_ops widget_order
             (fetch_all_rows dec_ops widget_sheet) None =
           Inr (Some (120, 1))"
    by code_simp
  from store_failure_reply [where faults = read_down and m = "''Connection reset''"
         and ops = dec_ops and order = widget_order and ws = widget_sheet
         and validate = "strict_item dec_ops" and p = "Some (120, 1)"]
       store_failure_reply [where faults = append_down and m = "''Quota exceeded''"
         and ops = dec_ops and order = widget_order and ws = widget_sheet
         and validate = "strict_item dec_ops" and p = "Some (120, 1)"]
       a b s
  show ?thesis by simp
qed

subsection \<open>The ledger\<close>

text \<open>
  Claim C7: no operation changes or removes a row of the ledger. A CreateOrder (either
  copy) that succeeds leaves the header and the rows as they were and adds one row at
  the end; one that fails leaves the sheet as it was; ListOrders leaves the sheet as it
  was.
\<close>

theorem ledger_append_only:
  "(case add_order ops faults order ws of
      (Success r, ws') \<Rightarrow>
        header ws' = header ws \<and>
        body ws' = body ws @ [new_row order (resp_latest_price_change r)]
    | (JSONResponse c d, ws') \<Rightarrow> ws' = ws) \<and>
   (case add_order_backup ops faults order ws of
      (Success r, ws') \<Rightarrow>
        header ws' = header ws \<and>
        body ws' = body ws @ [new_row order (echo_latest_price_change r)]
    | (JSONResponse c d, ws') \<Rightarrow> ws' = ws) \<and>
   snd (get_order_history validate ops faults ws) = ws"
proof -
  have a: "case add_order ops faults order ws of
      (Success r, ws') \<Rightarrow>
        header ws' = header ws \<and>
        body ws' = body ws @ [new_row order (resp_latest_price_change r)]
    | (JSONResponse c d, ws') \<Rightarrow> ws' = ws"
  proof (cases "add_order ops faults order ws")
    case (Pair rep ws')
    show ?thesis
    proof (cases rep)
      case (JSONResponse c d)
      with Pair add_order_failure [of ops faults order ws c d ws'] show ?thesis by simp
    next
      case (Success r)
      with Pair add_order_success [of ops faults order ws r ws'] show ?thesis by auto
    qed
  qed
  have b: "case add_order_backup ops faults order ws of
      (Success r, ws') \<Rightarrow>
        header ws' = header ws \<and>
        body ws' = body ws @ [new_row order (echo_latest_price_change r)]
    | (JSONResponse c d, ws') \<Rightarrow> ws' = ws"
  proof (cases "add_order_backup ops faults order ws")
    case (Pair rep ws')
    show ?thesis
    proof (cases rep)
      case (JSONResponse c d)
      with Pair add_order_backup_failure [of ops faults order ws c d ws'] show ?thesis by simp
    next
      case (Success r)
      with Pair add_order_backup_success [of ops faults order ws r ws'] show ?thesis by auto
    qed
  qed
  from a b show ?thesis by (simp add: get_order_history_sheet)
qed

theorem ledger_append_only_witness:
  "snd (add_order dec_ops no_faults widget_order widget_sheet) =
     widget_sheet\<lparr>body := body widget_sheet @ [new_row widget_order ''3.0'']\<rparr> \<and>
   snd (add_order dec_ops append_down widget_order widget_sheet) = widget_sheet \<and>
   snd (get_order_history (strict_item dec_ops) dec_ops no_faults widget_sheet) = widget_sheet"
proof -
  have ok: "add_order dec_ops no_faults widget_order widget_sheet =
     (Success (OrderResponse ''Order added successfully'' ''3.0''),
      snd (add_order dec_ops no_faults widget_order widget_sheet))"
    by code_simp
  have ko: "add_order dec_ops append_down widget_order widget_sheet =
     (JSONResponse 500 ''Error accessing Google Sheet: Quota exceeded'',
      snd (add_order dec_ops append_down widget_order widget_sheet))"
    by code_simp
  have eq: "\<And>(a :: dec worksheet) b. header a = header b \<Longrightarrow> body a = body b \<Longrightarrow> a = b"
    by simp
  from ledger_append_only [where ops = dec_ops and faults = no_faults
         and order = widget_order and ws = widget_sheet and validate = "strict_item dec_ops"]
  have 1: "snd (add_order dec_ops no_faults widget_order widget_sheet) =
             widget_sheet\<lparr>body := body widget_sheet @ [new_row widget_order ''3.0'']\<rparr> \<and>
           snd (get_order_history (strict_item dec_ops) dec_ops no_faults widget_sheet) =
             widget_sheet"
    by (subst (asm) ok) (simp add: eq)
  from ledger_append_only [where ops = dec_ops and faults = append_down
         and order = widget_order and ws = widget_sheet and validate = "strict_item dec_ops"]
  have 2: "snd (add_order dec_ops append_down widget_order widget_sheet) = widget_sheet"
    by (subst (asm) ko) simp
  from 1 2 show ?thesis by simp
qed

subsection \<open>The two copies\<close>

text \<open>
  Claim C8: on every request, sheet and store behaviour, the copy under
  \<^verbatim>\<open>backup/BE_google_sheet\<close> leaves the sheet as \<^verbatim>\<open>BE/app.py\<close> does (so it
  appends the same eight values in the same order, or nothing), and its reply is that
  of \<^verbatim>\<open>BE/app.py\<close> with the same 500 body on failure and, on success, the same
  message and latest_price_change with the request's fields echoed in addition.
\<close>

theorem copies_agree:
  "snd (add_order_backup ops faults order ws) = snd (add_order ops faults order ws) \<and>
   fst (add_order_backup ops faults order ws) =
     echo_reply order (fst (add_order ops faults order ws))"
  by (simp add: add_order_def add_order_backup_def echo_reply_def store_error_def Let_def
           split: sum.splits)

theorem copies_agree_witness:
  "add_order_backup dec_ops no_faults widget_order widget_sheet =
     (Success (OrderResponseEcho ''Order added successfully'' widget_order ''3.0''),
      widget_sheet\<lparr>body := body widget_sheet @ [new_row widget_order ''3.0'']\<rparr>)"
proof -
  have ok: "add_order dec_ops no_faults widget_order widget_sheet =
     (Success (OrderResponse ''Order added successfully'' ''3.0''),
      widget_sheet\<lparr>body := body widget_sheet @ [new_row widget_order ''3.0'']\<rparr>)"
    by code_simp
  from copies_agree [where ops = dec_ops and faults = no_faults and order = widget_order
         and ws = widget_sheet]
  show ?thesis by (simp add: ok echo_reply_def prod_eq_iff)
qed

text \<open>
  Claim C9: after a successful CreateOrder (either copy) the sheet has one more row, of
  eight values, whose eighth value is the latest_price_change string of the confirmation.
\<close>

theorem confirmation_matches_row:
  assumes "add_order ops faults order ws = (Success r, ws1)"
    and "add_order_backup ops faults order ws = (Success r2, ws2)"
  shows "body ws1 = body ws @ [last (body ws1)] \<and> length (last (body ws1)) = 8 \<and>
         last (body ws1) ! 7 = CStr (resp_latest_price_change r) \<and>
         body ws2 = body ws @ [last (body ws2)] \<and> length (last (body ws2)) = 8 \<and>
         last (body ws2) ! 7 = CStr (echo_latest_price_change r2)"
  using add_order_success [OF assms(1)] add_order_backup_success [OF assms(2)]
  by (auto simp: new_row_def)

theorem confirmation_matches_row_witness:
  "add_order dec_ops no_faults gadget_order widget_sheet =
     (Success (OrderResponse ''Order added successfully'' ''-''),
      widget_sheet\<lparr>body := body widget_sheet @ [new_row gadget_order ''-'']\<rparr>) \<and>
   add_order_backup dec_ops no_faults gadget_order widget_sheet =
     (Success (OrderResponseEcho ''Order added successfully'' gadget_order ''-''),
      widget_sheet\<lparr>body := body widget_sheet @ [new_row gadget_order ''-'']\<rparr>) \<and>
   last (body (widget_sheet\<lparr>body := body widget_sheet @ [new_row gadget_order ''-'']\<rparr>)) ! 7 =
     CStr ''-''"
proof -
  have a: "add_order dec_ops no_faults gadget_order widget_sheet =
     (Success (OrderResponse ''Order added successfully'' ''-''),
      widget_sheet\<lparr>body := body widget_sheet @ [new_row gadget_order ''-'']\<rparr>)"
    by code_simp
  have b: "add_order_backup dec_ops no_faults gadget_order widget_sheet =
     (Success (OrderResponseEcho ''Order added successfully'' gadget_order ''-''),
      widget_sheet\<lparr>body := body widget_sheet @ [new_row gadget_order ''-'']\<rparr>)"
    by code_simp
  from confirmation_matches_row [OF a b] a b show ?thesis by simp
qed

subsection \<open>Requests one after another\<close>

lemma record_of_new_row:
  "record_of order_columns (map (read_cell ops) (new_row order lpc)) ''product_name'' =
     Some (read_cell ops (CStr (product_name order)))"
  "record_of order_columns (map (read_cell ops) (new_row order lpc)) ''price'' =
     Some (CFloat (price order))"
  by (simp_all add: record_of_def order_columns_def new_row_def)

lemma fetch_after_append:
  "fetch_all_rows ops (ws\<lparr>body := body ws @ [vals]\<rparr>) =
     fetch_all_rows ops ws @ [record_of (header ws) (map (read_cell ops) vals)]"
  by (simp add: fetch_all_rows_def)

lemma scan_rows_append:
  "scan_rows ops order (xs @ [x]) prev =
     (case scan_rows ops order xs prev of
        Inl e \<Rightarrow> Inl e
      | Inr p \<Rightarrow> scan_rows ops order [x] p)"
proof (induction xs arbitrary: prev)
  case Nil
  show ?case by simp
next
  case (Cons y ys)
  show ?case
  proof (cases "strip_lower (row_get y ''product_name'' (CStr []))")
    case (Inl e)
    then show ?thesis by simp
  next
    case (Inr name)
    then show ?thesis by (simp add: Cons.IH)
  qed
qed

lemma scan_after_append:
  assumes "scan_rows ops order records None = Inr p"
    and "py_lower (py_strip (product_name r)) = py_lower (py_strip (product_name order))"
    and "read_cell ops (CStr (product_name r)) = CStr (product_name r)"
  shows "scan_rows ops order
           (records @ [record_of order_columns (map (read_cell ops) (new_row r lpc))]) None =
           Inr (Some (price r))"
  using assms by (simp add: scan_rows_append row_get_def record_of_new_row)

lemma add_order_step:
  assumes "open_fault faults = None" and "read_fault faults = None"
    and "append_fault faults = None"
    and "scan_rows ops order (fetch_all_rows ops ws) None = Inr prev"
  shows "add_order ops faults order ws =
           (Success (OrderResponse ''Order added successfully''
              (price_change_text ops order prev)),
            ws\<lparr>body := body ws @ [new_row order (price_change_text ops order prev)]\<rparr>)"
  using assms
  by (simp add: add_order_def get_gsheet_def get_all_records_def append_row_def Let_def)

lemma add_orders_chain:
  assumes nz: "\<And>a b. lt a b \<Longrightarrow> \<not> is_zero ops (fsub ops b a)"
    and nf: "open_fault faults = None" "read_fault faults = None" "append_fault faults = None"
  shows "header ws = order_columns \<Longrightarrow>
         scan_rows ops o0 (fetch_all_rows ops ws) None = Inr (Some p0) \<Longrightarrow>
         list_all (\<lambda>r. py_lower (py_strip (product_name r)) =
                        py_lower (py_strip (product_name o0))) reqs \<Longrightarrow>
         list_all (\<lambda>r. read_cell ops (CStr (product_name r)) = CStr (product_name r)) reqs \<Longrightarrow>
         successively lt (p0 # map price reqs) \<Longrightarrow>
         fst (add_orders ops faults reqs ws) = delta_replies ops p0 (map price reqs)"
proof (induction reqs arbitrary: ws p0)
  case Nil
  show ?case by simp
next
  case (Cons r rest)
  let ?lpc = "price_change_text ops r (Some p0)"
  let ?ws' = "ws\<lparr>body := body ws @ [new_row r ?lpc]\<rparr>"
  from Cons.prems(3) have key: "py_lower (py_strip (product_name r)) =
      py_lower (py_strip (product_name o0))" and
    rest: "list_all (\<lambda>r. py_lower (py_strip (product_name r)) =
                        py_lower (py_strip (product_name o0))) rest"
    by simp_all
  from Cons.prems(4) have readback: "read_cell ops (CStr (product_name r)) = CStr (product_name r)"
    and backs: "list_all (\<lambda>r. read_cell ops (CStr (product_name r)) = CStr (product_name r)) rest"
    by simp_all
  from Cons.prems(5) have lt: "lt p0 (price r)" and
    succ: "successively lt (price r # map price rest)"
    by simp_all
  have scan_r: "scan_rows ops r (fetch_all_rows ops ws) None = Inr (Some p0)"
    using scan_rows_name [OF key, of ops] Cons.prems(2) by simp
  have step: "add_order ops faults r ws =
      (Success (OrderResponse ''Order added successfully'' ?lpc), ?ws')"
    by (rule add_order_step [OF nf scan_r])
  have lpc: "?lpc = fstr ops (fsub ops (price r) p0)"
    using nz [OF lt] by (simp add: price_change_text_def)
  have hdr': "header ?ws' = order_columns" using Cons.prems(1) by simp
  have scan': "scan_rows ops o0 (fetch_all_rows ops ?ws') None = Inr (Some (price r))"
    using scan_after_append [OF Cons.prems(2) key readback, of ?lpc] Cons.prems(1)
    by (simp add: fetch_after_append)
  have "fst (add_orders ops faults rest ?ws') = delta_replies ops (price r) (map price rest)"
    by (rule Cons.IH [OF hdr' scan' rest backs succ])
  then show ?case
    by (auto simp: step lpc split: prod.splits)
qed

lemma delta_replies_nth:
  "i < length ps \<Longrightarrow>
   delta_replies ops p0 ps ! i =
     Success (OrderResponse ''Order added successfully''
       (fstr ops (fsub ops (ps ! i) ((p0 # ps) ! i))))"
proof (induction ps arbitrary: p0 i)
  case Nil
  then show ?case by simp
next
  case (Cons p ps)
  show ?case
  proof (cases i)
    case 0
    then show ?thesis by simp
  next
    case (Suc j)
    with Cons.prems have "j < length ps" by simp
    from Cons.IH [OF this, of p] Suc show ?thesis by simp
  qed
qed

lemma successively_nth:
  "successively P xs \<Longrightarrow> Suc j < length xs \<Longrightarrow> P (xs ! j) (xs ! Suc j)"
proof (induction xs arbitrary: j)
  case Nil
  then show ?case by simp
next
  case (Cons x xs)
  show ?case
  proof (cases xs)
    case Nil
    with Cons.prems show ?thesis by simp
  next
    case (Cons y ys)
    show ?thesis
    proof (cases j)
      case 0
      with Cons.prems Cons show ?thesis by simp
    next
      case (Suc k)
      with Cons.prems Cons.IH [of k] Cons show ?thesis by simp
    qed
  qed
qed

lemma add_orders_rising:
  assumes nz: "\<And>a b. lt a b \<Longrightarrow> \<not> is_zero ops (fsub ops b a)"
    and nf: "open_fault faults = None" "read_fault faults = None" "append_fault faults = None"
    and hdr: "header ws = order_columns"
    and names: "list_all name_is_text (fetch_all_rows ops ws)"
    and same: "list_all (\<lambda>r. py_lower (py_strip (product_name r)) = key) (r0 # rest)"
    and readback: "list_all (\<lambda>r. read_cell ops (CStr (product_name r)) = CStr (product_name r))
                 (r0 # rest)"
    and rising: "successively lt (map price (r0 # rest))"
  shows "tl (fst (add_orders ops faults (r0 # rest) ws)) =
           delta_replies ops (price r0) (map price rest)"
proof -
  let ?prev = "last_match_price ops r0 (fetch_all_rows ops ws)"
  let ?lpc = "price_change_text ops r0 ?prev"
  let ?ws' = "ws\<lparr>body := body ws @ [new_row r0 ?lpc]\<rparr>"
  have scan: "scan_rows ops r0 (fetch_all_rows ops ws) None = Inr ?prev"
    by (rule scan_rows_last_match [OF names])
  have step: "add_order ops faults r0 ws =
      (Success (OrderResponse ''Order added successfully'' ?lpc), ?ws')"
    by (rule add_order_step [OF nf scan])
  have hdr': "header ?ws' = order_columns" using hdr by simp
  from readback have back0: "read_cell ops (CStr (product_name r0)) = CStr (product_name r0)"
    and backs: "list_all (\<lambda>r. read_cell ops (CStr (product_name r)) = CStr (product_name r)) rest"
    by simp_all
  have scan': "scan_rows ops r0 (fetch_all_rows ops ?ws') None = Inr (Some (price r0))"
    using scan_after_append [OF scan refl back0, of ?lpc] hdr
    by (simp add: fetch_after_append)
  from same have rest: "list_all (\<lambda>r. py_lower (py_strip (product_name r)) =
      py_lower (py_strip (product_name r0))) rest"
    by (simp add: list_all_iff)
  from rising have succ: "successively lt (price r0 # map price rest)" by simp
  have "fst (add_orders ops faults rest ?ws') = delta_replies ops (price r0) (map price rest)"
    by (rule add_orders_chain [where lt = lt, OF nz nf hdr' scan' rest backs succ])
  then show ?thesis by (auto simp: step split: prod.splits)
qed

text \<open>
  Away from that case the service does what it is meant to: when the product names, of the
  rows already in the sheet and of the requests, come readback from the store as text, the
  sheet has the service's columns and the store does not fail, every call after the first
  returns the string of the difference between its price and the price of the call before
  it, and that difference is positive. (The order \<open>lt\<close> on floats is such that
  \<open>a < b\<close> makes \<open>b - a\<close> positive, and a positive float is not zero.)
\<close>

lemma rising_prices_text_names:
  assumes pos: "\<And>a b. lt a b \<Longrightarrow> lt z (fsub ops b a)"
    and nz: "\<And>d. lt z d \<Longrightarrow> \<not> is_zero ops d"
    and nf: "open_fault faults = None" "read_fault faults = None" "append_fault faults = None"
    and hdr: "header ws = order_columns"
    and names: "list_all name_is_text (fetch_all_rows ops ws)"
    and same: "list_all (\<lambda>r. py_lower (py_strip (product_name r)) = key) reqs"
    and readback: "list_all (\<lambda>r. read_cell ops (CStr (product_name r)) = CStr (product_name r)) reqs"
    and rising: "successively lt (map price reqs)"
    and i: "0 < i" "i < length reqs"
  shows "fst (add_orders ops faults reqs ws) ! i =
           Success (OrderResponse ''Order added successfully''
             (fstr ops (fsub ops (price (reqs ! i)) (price (reqs ! (i - 1)))))) \<and>
         lt z (fsub ops (price (reqs ! i)) (price (reqs ! (i - 1))))"
proof -
  from i obtain r0 rest where reqs: "reqs = r0 # rest" by (cases reqs) simp_all
  from i obtain j where j: "i = Suc j" by (cases i) simp_all
  with i reqs have jl: "j < length rest" by simp
  have nz': "\<And>a b. lt a b \<Longrightarrow> \<not> is_zero ops (fsub ops b a)"
    by (rule nz) (rule pos)
  have tail: "tl (fst (add_orders ops faults reqs ws)) =
          delta_replies ops (price r0) (map price rest)"
    unfolding reqs
    by (rule add_orders_rising [where lt = lt,
          OF nz' nf hdr names same [unfolded reqs] readback [unfolded reqs]
            rising [unfolded reqs]])
  have "fst (add_orders ops faults reqs ws) \<noteq> []"
    by (simp add: reqs split: prod.splits)
  then have "fst (add_orders ops faults reqs ws) ! i =
      tl (fst (add_orders ops faults reqs ws)) ! j"
    by (cases "fst (add_orders ops faults reqs ws)") (simp_all add: j)
  then have "fst (add_orders ops faults reqs ws) ! i =
      delta_replies ops (price r0) (map price rest) ! j"
    by (simp only: tail)
  also have "\<dots> = Success (OrderResponse ''Order added successfully''
       (fstr ops (fsub ops (map price rest ! j) ((price r0 # map price rest) ! j))))"
    by (rule delta_replies_nth) (simp add: jl)
  finally have reply: "fst (add_orders ops faults reqs ws) ! i =
      Success (OrderResponse ''Order added successfully''
        (fstr ops (fsub ops (price (reqs ! i)) (price (reqs ! (i - 1))))))"
    using jl by (simp add: reqs j nth_Cons')
  have "lt (map price reqs ! j) (map price reqs ! Suc j)"
    by (rule successively_nth [OF rising]) (simp add: reqs jl)
  moreover have "map price reqs ! j = price (reqs ! j)"
    by (rule nth_map) (use jl in \<open>simp add: reqs\<close>)
  moreover have "map price reqs ! Suc j = price (reqs ! Suc j)"
    by (rule nth_map) (use jl in \<open>simp add: reqs\<close>)
  ultimately have "lt (price (reqs ! (i - 1))) (price (reqs ! i))"
    by (simp only: j diff_Suc_1)
  then have "lt z (fsub ops (price (reqs ! i)) (price (reqs ! (i - 1))))"
    by (rule pos)
  with reply show ?thesis by simp
qed

lemma dec_less_pos:
  assumes "dec_less a b"
  shows "dec_less (0, 0) (fsub dec_ops b a)"
proof -
  obtain m1 e1 where a: "a = (m1, e1)" by (cases a)
  obtain m2 e2 where b: "b = (m2, e2)" by (cases b)
  from assms have lt: "m1 * 10 ^ e2 < m2 * 10 ^ e1" by (simp add: dec_less_def a b)
  have "m1 * 10 ^ (max e2 e1 - e1) < m2 * 10 ^ (max e2 e1 - e2)"
  proof (cases "e1 \<le> e2")
    case True
    then have "(10::int) ^ e2 = 10 ^ (e2 - e1) * 10 ^ e1"
      by (simp add: power_add [symmetric])
    with lt have "(m1 * 10 ^ (e2 - e1)) * 10 ^ e1 < m2 * 10 ^ e1" by (simp add: mult.assoc)
    then have "m1 * 10 ^ (e2 - e1) < m2" by simp
    with True show ?thesis by (simp add: max_def)
  next
    case False
    then have "(10::int) ^ e1 = 10 ^ (e1 - e2) * 10 ^ e2"
      by (simp add: power_add [symmetric])
    with lt have "m1 * 10 ^ e2 < (m2 * 10 ^ (e1 - e2)) * 10 ^ e2" by (simp add: mult.assoc)
    then have "m1 < m2 * 10 ^ (e1 - e2)" by simp
    with False show ?thesis by (simp add: max_def)
  qed
  then show ?thesis by (simp add: dec_less_def dec_ops_def dec_sub_def a b)
qed

lemma dec_pos_not_zero: "dec_less (0, 0) d \<Longrightarrow> \<not> is_zero dec_ops d"
  by (cases d) (simp add: dec_less_def dec_ops_def)

lemma rising_prices_text_names_example:
  "list_all name_is_text (fetch_all_rows dec_ops widget_sheet) \<and>
   list_all (\<lambda>r. read_cell dec_ops (CStr (product_name r)) = CStr (product_name r))
     rising_orders \<and>
   list_all (\<lambda>r. py_lower (py_strip (product_name r)) = ''widget'') rising_orders \<and>
   successively dec_less (map price rising_orders) \<and>
   fst (add_orders dec_ops no_faults rising_orders widget_sheet) ! 1 =
     Success (OrderResponse ''Order added successfully'' ''2.5'') \<and>
   fst (add_orders dec_ops no_faults rising_orders widget_sheet) ! 2 =
     Success (OrderResponse ''Order added successfully'' ''2.5'')"
proof -
  have nf: "open_fault no_faults = None" "read_fault no_faults = None"
    "append_fault no_faults = None"
    by (simp_all add: no_faults_def)
  have hdr: "header widget_sheet = order_columns" by (simp add: widget_sheet_def)
  have names: "list_all name_is_text (fetch_all_rows dec_ops widget_sheet)"
    by code_simp
  have readback: "list_all (\<lambda>r. read_cell dec_ops (CStr (product_name r)) = CStr (product_name r))
                rising_orders"
    by code_simp
  have same: "list_all (\<lambda>r. py_lower (py_strip (product_name r)) = ''widget'') rising_orders"
    by code_simp
  have rising: "successively dec_less (map price rising_orders)" by code_simp
  have len: "(1::nat) < length rising_orders" "(2::nat) < length rising_orders"
    by (simp_all add: rising_orders_def)
  have d1: "fstr dec_ops (fsub dec_ops (price (rising_orders ! 1))
              (price (rising_orders ! (1 - 1)))) = ''2.5''"
    by code_simp
  have d2: "fstr dec_ops (fsub dec_ops (price (rising_orders ! 2))
              (price (rising_orders ! (2 - 1)))) = ''2.5''"
    by code_simp
  from rising_prices_text_names [where lt = dec_less and z = "(0, 0)" and ops = dec_ops and i = 1,
         OF dec_less_pos dec_pos_not_zero nf hdr names same readback rising _ len(1)]
       rising_prices_text_names [where lt = dec_less and z = "(0, 0)" and ops = dec_ops and i = 2,
         OF dec_less_pos dec_pos_not_zero nf hdr names same readback rising _ len(2)]
       names same readback rising d1 d2
  show ?thesis by simp
qed

text \<open>
  Claim C3 is a statement of the service's purpose: requests for one product at strictly
  rising prices, served one after another, each get the positive difference to the
  price before. The code misses a case. The store returns a text that looks numeric as
  a number (the listing coerces \<^verbatim>\<open>latest_price_change\<close> readback to a string for
  that reason), and the scan of \<^verbatim>\<open>add_order\<close> calls \<^verbatim>\<open>strip\<close> on the
  product name it gets from the store. So after a first request for the product named
  \<^verbatim>\<open>123\<close> on an empty sheet, whatever its price, the next request does not get a
  price difference: it gets the 500 reply, with the message of the
  \<^verbatim>\<open>AttributeError\<close>.
\<close>

theorem numeric_name_breaks_next_call:
  "fst (add_orders ops no_faults [o1\<lparr>product_name := ''123''\<rparr>, o2]
          \<lparr>header = order_columns, body = []\<rparr>) =
     [Success (OrderResponse ''Order added successfully'' ''-''),
      JSONResponse 500 (''Error accessing Google Sheet: '' @ attribute_error ''int'' ''strip'')]"
proof -
  let ?o1 = "o1\<lparr>product_name := ''123''\<rparr>"
  let ?ws = "\<lparr>header = order_columns, body = []\<rparr> :: 'a worksheet"
  let ?ws' = "\<lparr>header = order_columns, body = [new_row ?o1 ''-'']\<rparr> :: 'a worksheet"
  have i: "int_of_str ''123'' = Some 123" by code_simp
  have n: "numericise ops ''123'' = CInt 123" by (simp add: numericise_def i)
  have first: "add_order ops no_faults ?o1 ?ws =
      (Success (OrderResponse ''Order added successfully'' ''-''), ?ws')"
    by (simp add: add_order_def get_gsheet_def get_all_records_def fetch_all_rows_def
          append_row_def no_faults_def price_change_text_def Let_def)
  have name: "row_get (record_of order_columns (map (read_cell ops) (new_row ?o1 ''-'')))
                ''product_name'' (CStr []) = CInt 123"
    by (simp add: row_get_def record_of_new_row n)
  have second: "add_order ops no_faults o2 ?ws' =
      (store_error (attribute_error ''int'' ''strip''), ?ws')"
    by (simp add: add_order_def get_gsheet_def get_all_records_def fetch_all_rows_def
          no_faults_def name Let_def)
  show ?thesis by (simp add: first second store_error_def)
qed

theorem numeric_name_breaks_next_call_witness:
  "list_all (\<lambda>r. product_name r = ''123'') numeric_orders \<and>
   successively dec_less (map price numeric_orders) \<and>
   fst (add_orders dec_ops no_faults numeric_orders blank_sheet) =
     [Success (OrderResponse ''Order added successfully'' ''-''),
      JSONResponse 500 (''Error accessing Google Sheet: '' @ attribute_error ''int'' ''strip'')]"
proof -
  have a: "list_all (\<lambda>r. product_name r = ''123'') numeric_orders" by code_simp
  have b: "successively dec_less (map price numeric_orders)" by code_simp
  have c: "numeric_orders = [hd numeric_orders\<lparr>product_name := ''123''\<rparr>, numeric_orders ! 1]"
    by (simp add: numeric_orders_def)
  have "fst (add_orders dec_ops no_faults numeric_orders
               \<lparr>header = order_columns, body = []\<rparr>) =
     [Success (OrderResponse ''Order added successfully'' ''-''),
      JSONResponse 500 (''Error accessing Google Sheet: '' @ attribute_error ''int'' ''strip'')]"
    by (subst c) (rule numeric_name_breaks_next_call)
  then have "fst (add_orders dec_ops no_faults numeric_orders blank_sheet) =
     [Success (OrderResponse ''Order added successfully'' ''-''),
      JSONResponse 500 (''Error accessing Google Sheet: '' @ attribute_error ''int'' ''strip'')]"
    by (simp only: blank_sheet_def)
  with a b show ?thesis by (simp only: simp_thms)
qed

end
